theory Spec2Isabelle
  imports Complex_Main "HOL-Library.Log_Nat"
begin

section \<open>JavaScript values and thrown errors\<close>

text \<open>
  The TypeScript sources run as JavaScript: a parsed JSON body is untyped (\<open>any\<close>), and
  the code tests it by truthiness. A body is therefore a JavaScript value. Numbers are
  finite doubles in the source; a finite double is the rational it denotes. The sources
  perform two computations on them. The score \<open>0 + 0.4 + 0.3 + 0.3\<close> is kept in exact
  rationals: every partial sum of the doubles is the double nearest to the decimal it
  prints as, so the comparisons with the literal \<open>0.7\<close> agree with the exact ones. The
  centroid \<open>origin + size / 2\<close> is rounded as the engine rounds it (\<open>dbl\<close> below).
\<close>

datatype jsval =
    JUndefined
  | JNull
  | JBool bool
  | JNum rat
  | JStr string
  | JArr "jsval list"
  | JObj "(string \<times> jsval) list"

text \<open>What a \<open>catch\<close> clause receives: an \<open>Error\<close> object with its message, or any
  other thrown value (\<open>error instanceof Error\<close> is false for it).\<close>

datatype thrown = ErrorObj string | NonError

text \<open>JavaScript truthiness, as \<open>if (v)\<close>, \<open>a && b\<close> and \<open>a || b\<close> test it.\<close>

fun truthy :: "jsval \<Rightarrow> bool" where
  "truthy JUndefined = False"
| "truthy JNull = False"
| "truthy (JBool b) = b"
| "truthy (JNum n) = (n \<noteq> 0)"
| "truthy (JStr s) = (s \<noteq> [])"
| "truthy (JArr xs) = True"
| "truthy (JObj kvs) = True"

text \<open>
  Reading the property \<open>success\<close> or \<open>access_token\<close> of a parsed body: a TypeError on
  \<open>null\<close> and \<open>undefined\<close>, the stored value on an object that has the key, and
  \<open>undefined\<close> everywhere else (booleans, numbers, strings and arrays have no such
  property).
\<close>

fun get_prop :: "jsval \<Rightarrow> string \<Rightarrow> thrown + jsval" where
  "get_prop JUndefined k = Inl (ErrorObj ''TypeError'')"
| "get_prop JNull k = Inl (ErrorObj ''TypeError'')"
| "get_prop (JObj kvs) k = Inr (case map_of kvs k of None \<Rightarrow> JUndefined | Some v \<Rightarrow> v)"
| "get_prop (JBool b) k = Inr JUndefined"
| "get_prop (JNum n) k = Inr JUndefined"
| "get_prop (JStr s) k = Inr JUndefined"
| "get_prop (JArr xs) k = Inr JUndefined"

section \<open>Double arithmetic\<close>

text \<open>
  The result of an arithmetic operation on doubles is the exact result rounded to the
  nearest double, ties to the even significand (IEEE 754 binary64: 53 significant bits,
  least exponent \<open>-1022\<close>, below which the spacing stays \<open>2^-1074\<close>). \<open>round_half_even\<close>
  rounds to the nearest integer, \<open>ilog2 x\<close> is the integer part of the binary logarithm
  of a positive \<open>x\<close>, and \<open>dbl\<close> rounds a rational to the nearest double. A result beyond
  the largest finite double is \<open>Infinity\<close> in the source; it is \<open>2^1024\<close> here, which
  compares with every finite double as \<open>Infinity\<close> does.
\<close>

definition round_half_even :: "rat \<Rightarrow> int" where
  "round_half_even x =
     (let f = \<lfloor>x\<rfloor>; d = x - of_int f
      in if d < 1/2 then f else if 1/2 < d then f + 1 else if even f then f else f + 1)"

definition pow2 :: "int \<Rightarrow> rat" where
  "pow2 k = (if 0 \<le> k then 2 ^ nat k else 1 / 2 ^ nat (- k))"

definition ilog2 :: "rat \<Rightarrow> int" where
  "ilog2 x = (if 1 \<le> x then bitlen \<lfloor>x\<rfloor> - 1 else - bitlen (\<lceil>1 / x\<rceil> - 1))"

definition dbl :: "rat \<Rightarrow> rat" where
  "dbl x =
     (if x = 0 then 0
      else
        let a = \<bar>x\<bar>;
            e = max (ilog2 a) (- 1022);
            q = pow2 (e - 52);
            r = of_int (round_half_even (a / q)) * q
        in sgn x * min r (2 ^ 1024))"

section \<open>Constants (constants.ts)\<close>

definition AUTH_TOKEN_KEY :: string where
  "AUTH_TOKEN_KEY = ''@krish_ai:auth_token''"

definition USER_ID_KEY :: string where
  "USER_ID_KEY = ''@krish_ai:user_id''"

record FaceVerificationConfig =
  minConfidence :: rat
  livenessThreshold :: rat
  maxRetries :: nat
  captureInterval :: nat

definition FACE_VERIFICATION :: FaceVerificationConfig where
  "FACE_VERIFICATION =
     \<lparr>minConfidence = 0.7, livenessThreshold = 0.8, maxRetries = 3, captureInterval = 500\<rparr>"

definition ERROR_FACE_REGISTRATION :: string where
  "ERROR_FACE_REGISTRATION = ''Face registration failed. Please try again.''"

definition ERROR_FACE_VERIFICATION :: string where
  "ERROR_FACE_VERIFICATION = ''Face verification failed. Please try again.''"

definition SUCCESS_FACE_REGISTERED :: string where
  "SUCCESS_FACE_REGISTERED = ''Face registered successfully!''"

section \<open>What the handlers do to the outside world\<close>

text \<open>
  Every handler returns, besides its result and the new state, the calls it issued to its
  collaborators, in order. The two \<open>fetch\<close> calls to \<open>/api/face/register\<close> and
  \<open>/api/face/verify\<close> are the calls to the Matcher.
\<close>

datatype effect =
    FetchRegister "jsval option" "string option" string
      \<comment> \<open>Authorization bearer (when the token is truthy), \<open>user_id\<close>, \<open>image_data\<close>\<close>
  | FetchVerify "string option" string
      \<comment> \<open>\<open>user_id\<close>, \<open>image_data\<close>\<close>
  | FetchVerifyToken string
  | StorageSet string jsval
  | StorageRemove string
  | ConsoleError string
  | AlertShown string string
  | TakePictureAsync
  | AnimationPlay
  | ApiPutSettings

fun is_matcher_call :: "effect \<Rightarrow> bool" where
  "is_matcher_call (FetchRegister a u i) = True"
| "is_matcher_call (FetchVerify u i) = True"
| "is_matcher_call e = False"

definition matcher_calls :: "effect list \<Rightarrow> effect list" where
  "matcher_calls es = filter is_matcher_call es"

text \<open>How the network answers one \<open>fetch\<close> followed by \<open>response.json()\<close>: the fetch
  rejects, the body is not JSON, or the body parses to a value.\<close>

datatype fetch_outcome = FetchRejected | JsonRejected | JsonBody jsval

section \<open>AuthContext: the authentication state and its operations\<close>

record AuthState =
  isAuthenticated :: bool
  token :: "jsval option"
  userId :: "string option"
  isLoading :: bool

definition initialState :: AuthState where
  "initialState = \<lparr>isAuthenticated = False, token = None, userId = None, isLoading = True\<rparr>"

text \<open>
  \<open>login\<close> issues both \<open>AsyncStorage.setItem\<close> calls, then awaits them together. When
  they resolve (\<open>storage_ok\<close>) the state becomes authenticated; when one rejects the
  state is left alone and an \<open>Error\<close> is thrown to the caller.
\<close>

definition login ::
  "jsval \<Rightarrow> string \<Rightarrow> bool \<Rightarrow> AuthState \<Rightarrow> (thrown + unit) \<times> AuthState \<times> effect list" where
  "login tok uid storage_ok s =
     (let writes = [StorageSet AUTH_TOKEN_KEY tok, StorageSet USER_ID_KEY (JStr uid)] in
      if storage_ok
      then (Inr (),
            \<lparr>isAuthenticated = True, token = Some tok, userId = Some uid, isLoading = False\<rparr>,
            writes)
      else (Inl (ErrorObj ''Failed to save authentication state''), s,
            writes @ [ConsoleError ''Error saving auth state:'']))"

definition logout :: "bool \<Rightarrow> AuthState \<Rightarrow> (thrown + unit) \<times> AuthState \<times> effect list" where
  "logout storage_ok s =
     (let removes = [StorageRemove AUTH_TOKEN_KEY, StorageRemove USER_ID_KEY] in
      if storage_ok
      then (Inr (),
            \<lparr>isAuthenticated = False, token = None, userId = None, isLoading = False\<rparr>,
            removes)
      else (Inl (ErrorObj ''Failed to clear authentication state''), s,
            removes @ [ConsoleError ''Error clearing auth state:'']))"

text \<open>
  \<open>loadAuthState\<close> reads both keys; \<open>None\<close> for \<open>stored\<close> is a rejected read. With a
  truthy token and user id it asks the backend; \<open>verify\<close> is \<open>None\<close> when that fetch
  rejects and \<open>Some ok\<close> with \<open>response.ok\<close> otherwise.
\<close>

definition loadAuthState ::
  "(string option \<times> string option) option \<Rightarrow> bool option \<Rightarrow> AuthState \<Rightarrow> AuthState \<times> effect list" where
  "loadAuthState stored verify s =
     (let cleared = initialState\<lparr>isLoading := False\<rparr>;
          failed = ConsoleError ''Error loading auth state:'' in
      case stored of
        None \<Rightarrow> (cleared, [failed])
      | Some (tk, uid) \<Rightarrow>
          (case (tk, uid) of
             (Some t, Some u) \<Rightarrow>
               if t \<noteq> [] \<and> u \<noteq> []
               then (case verify of
                       None \<Rightarrow> (cleared, [FetchVerifyToken t, failed])
                     | Some ok \<Rightarrow>
                         if ok
                         then (\<lparr>isAuthenticated = True, token = Some (JStr t),
                                 userId = Some u, isLoading = False\<rparr>,
                               [FetchVerifyToken t])
                         else (cleared, [FetchVerifyToken t]))
               else (cleared, [])
           | _ \<Rightarrow> (cleared, [])))"

text \<open>The bearer header of \<open>registerFace\<close>: present exactly when \<open>state.token\<close> is truthy.\<close>

definition bearer :: "AuthState \<Rightarrow> jsval option" where
  "bearer s = (case token s of None \<Rightarrow> None | Some t \<Rightarrow> if truthy t then Some t else None)"

text \<open>
  The \<open>try\<close> block of \<open>registerFace\<close>: \<open>Inl\<close> is an exception leaving the block, \<open>Inr\<close>
  the value of \<open>result.success\<close>.
\<close>

definition registerFace_try ::
  "string \<Rightarrow> fetch_outcome \<Rightarrow> AuthState \<Rightarrow> (thrown + jsval) \<times> effect list" where
  "registerFace_try imageData net s =
     (let call = FetchRegister (bearer s) (userId s) imageData in
      case net of
        FetchRejected \<Rightarrow> (Inl (ErrorObj ''Network request failed''), [call])
      | JsonRejected \<Rightarrow> (Inl (ErrorObj ''SyntaxError''), [call])
      | JsonBody result \<Rightarrow> (get_prop result ''success'', [call]))"

text \<open>\<open>registerFace\<close> with its \<open>catch\<close>: \<open>Inl\<close> would be a rejected promise.\<close>

definition registerFace ::
  "string \<Rightarrow> fetch_outcome \<Rightarrow> AuthState \<Rightarrow> (thrown + jsval) \<times> effect list" where
  "registerFace imageData net s =
     (case registerFace_try imageData net s of
        (Inl e, effs) \<Rightarrow> (Inr (JBool False), effs @ [ConsoleError ''Error registering face:''])
      | (Inr v, effs) \<Rightarrow> (Inr v, effs))"

text \<open>
  The \<open>try\<close> block of \<open>verifyFace\<close>. \<open>result.success && result.access_token\<close> reads
  \<open>access_token\<close> only when \<open>success\<close> is truthy; \<open>state.userId || ''\<close> replaces a null
  or empty user id by the empty string.
\<close>

definition verifyFace_try ::
  "string \<Rightarrow> fetch_outcome \<Rightarrow> bool \<Rightarrow> AuthState \<Rightarrow> (thrown + bool) \<times> AuthState \<times> effect list" where
  "verifyFace_try imageData net storage_ok s =
     (let call = FetchVerify (userId s) imageData in
      case net of
        FetchRejected \<Rightarrow> (Inl (ErrorObj ''Network request failed''), s, [call])
      | JsonRejected \<Rightarrow> (Inl (ErrorObj ''SyntaxError''), s, [call])
      | JsonBody result \<Rightarrow>
          (case get_prop result ''success'' of
             Inl e \<Rightarrow> (Inl e, s, [call])
           | Inr success \<Rightarrow>
               if \<not> truthy success then (Inr False, s, [call])
               else
                 (case get_prop result ''access_token'' of
                    Inl e \<Rightarrow> (Inl e, s, [call])
                  | Inr access_token \<Rightarrow>
                      if \<not> truthy access_token then (Inr False, s, [call])
                      else
                        (case login access_token
                                (case userId s of None \<Rightarrow> [] | Some u \<Rightarrow> u) storage_ok s of
                           (Inl e, s', effs) \<Rightarrow> (Inl e, s', call # effs)
                         | (Inr u, s', effs) \<Rightarrow> (Inr True, s', call # effs)))))"

definition verifyFace ::
  "string \<Rightarrow> fetch_outcome \<Rightarrow> bool \<Rightarrow> AuthState \<Rightarrow> (thrown + bool) \<times> AuthState \<times> effect list" where
  "verifyFace imageData net storage_ok s =
     (case verifyFace_try imageData net storage_ok s of
        (Inl e, s', effs) \<Rightarrow> (Inr False, s', effs @ [ConsoleError ''Error verifying face:''])
      | (Inr b, s', effs) \<Rightarrow> (Inr b, s', effs))"

section \<open>FaceRegistrationScreen: quality score, centring and capture\<close>

text \<open>
  A detected face, as the camera reports it: \<open>bounds.origin.x\<close>, \<open>bounds.origin.y\<close>,
  \<open>bounds.size.width\<close> and \<open>bounds.size.height\<close>, in pixels.
\<close>

record Face =
  origin_x :: rat
  origin_y :: rat
  size_width :: rat
  size_height :: rat

text \<open>The screen's \<open>useState\<close> cells, and whether its camera ref is attached.\<close>

record RegState =
  hasPermission :: "bool option"
  isRegistering :: bool
  registrationSuccess :: bool
  isFaceCentered :: bool
  registrationStep :: nat
  errorMessage :: "string option"
  qualityScore :: rat
  cameraRef :: bool

definition initialRegState :: RegState where
  "initialRegState =
     \<lparr>hasPermission = None, isRegistering = False, registrationSuccess = False,
      isFaceCentered = False, registrationStep = 0, errorMessage = None, qualityScore = 0,
      cameraRef = False\<rparr>"

definition resetRegistration :: "RegState \<Rightarrow> RegState" where
  "resetRegistration s =
     s\<lparr>isRegistering := False, registrationSuccess := False, registrationStep := 0,
       errorMessage := None, qualityScore := 0\<rparr>"

text \<open>
  \<open>checkFaceQuality\<close> reads \<open>isFaceCentered\<close> from the render it was created in: \<open>r\<close> is
  that render's state, \<open>s\<close> the state being written. It stores the score and returns
  \<open>score > 0.7\<close>.
\<close>

definition checkFaceQuality :: "RegState \<Rightarrow> Face \<Rightarrow> RegState \<Rightarrow> bool \<times> RegState" where
  "checkFaceQuality r face s =
     (let minSize = 100;
          maxSize = 240;
          w = size_width face;
          h = size_height face;
          score = 0;
          score = (if w > minSize \<and> w < maxSize \<and> h > minSize \<and> h < maxSize
                   then score + 0.4 else score);
          score = (if isFaceCentered r then score + 0.3 else score);
          score = score + 0.3
      in (score > 0.7, s\<lparr>qualityScore := score\<rparr>))"

text \<open>
  \<open>handleFaceDetected\<close> looks at the first detected face only. The centroid is computed
  in doubles: the division and the addition each round. \<open>setIsFaceCentered\<close> does not
  change the \<open>isFaceCentered\<close> that \<open>checkFaceQuality\<close> reads in the same call: the score
  of this frame uses the flag of the previous render. The boolean that
  \<open>checkFaceQuality\<close> returns is dropped.
\<close>

definition handleFaceDetected :: "Face list \<Rightarrow> RegState \<Rightarrow> RegState" where
  "handleFaceDetected detectedFaces s =
     (case detectedFaces of
        face # others \<Rightarrow>
          (let centerX = dbl (origin_x face + dbl (size_width face / 2));
               centerY = dbl (origin_y face + dbl (size_height face / 2));
               isXCentered = (centerX > 160 \<and> centerX < 240);
               isYCentered = (centerY > 260 \<and> centerY < 340);
               s1 = s\<lparr>isFaceCentered := (isXCentered \<and> isYCentered)\<rparr>
           in snd (checkFaceQuality s face s1))
      | [] \<Rightarrow> s\<lparr>isFaceCentered := False, qualityScore := 0\<rparr>)"

text \<open>What \<open>takePictureAsync\<close> answers: a rejection, or a photo with its base64 text.\<close>

datatype capture_outcome = CaptureRejected thrown | Photo string

definition dataUrl :: "string \<Rightarrow> string" where
  "dataUrl b64 = ''data:image/jpeg;base64,'' @ b64"

text \<open>The \<open>catch\<close> and \<open>finally\<close> of \<open>takePicture\<close>.\<close>

definition takePicture_catch :: "thrown \<Rightarrow> RegState \<Rightarrow> effect list \<Rightarrow> RegState \<times> effect list" where
  "takePicture_catch e s effs =
     (let msg = (case e of ErrorObj m \<Rightarrow> m
                 | NonError \<Rightarrow> ''Failed to register face. Please try again.'')
      in (s\<lparr>errorMessage := Some msg, isRegistering := False\<rparr>,
          effs @ [AlertShown ''Error'' msg]))"

text \<open>
  \<open>takePicture\<close>: its guard is the camera ref and \<open>isFaceCentered\<close>; the quality score is
  not read. \<open>registerFace\<close> comes from the AuthContext, whose state \<open>au\<close> it reads. The
  animation is rendered only once \<open>registrationSuccess\<close> is set, so whether
  \<open>animationRef.current\<close> is attached when the success branch tests it depends on
  whether React has re-rendered by then: \<open>anim\<close> is the answer.
\<close>

definition takePicture ::
  "capture_outcome \<Rightarrow> fetch_outcome \<Rightarrow> bool \<Rightarrow> AuthState \<Rightarrow> RegState
     \<Rightarrow> RegState \<times> effect list" where
  "takePicture cam net anim au s =
     (if \<not> cameraRef s \<or> \<not> isFaceCentered s then (s, [])
      else
        let s1 = s\<lparr>isRegistering := True, registrationStep := 1, errorMessage := None\<rparr> in
        case cam of
          CaptureRejected e \<Rightarrow> takePicture_catch e s1 [TakePictureAsync]
        | Photo b64 \<Rightarrow>
            (let s2 = s1\<lparr>registrationStep := 2\<rparr> in
             case registerFace (dataUrl b64) net au of
               (Inl e, effs) \<Rightarrow> takePicture_catch e s2 (TakePictureAsync # effs)
             | (Inr success, effs) \<Rightarrow>
                 if truthy success
                 then (s2\<lparr>registrationStep := 3, registrationSuccess := True,
                          isRegistering := False\<rparr>,
                       TakePictureAsync # effs
                         @ (if anim then [AnimationPlay] else [])
                         @ [AlertShown ''Success''
                              ''Face registered successfully! You can now use face verification for authentication.''])
                 else (s2\<lparr>isRegistering := False\<rparr>, TakePictureAsync # effs)))"

section \<open>AuthScreen: register and verify buttons\<close>

text \<open>
  The handlers of AuthScreen, as functions of the state they would run on. The component
  itself reads \<open>styles\<close> in its first render (\<open>hasPermission\<close> is still null) before the
  \<open>const styles\<close> declaration further down, which throws; so it never mounts, and no
  event of a run below calls these handlers.
\<close>

record AuthScreenState =
  hasPermission_a :: "bool option"
  isRegistering_a :: bool
  isProcessing :: bool
  cameraRef_a :: bool

definition initialAuthScreenState :: AuthScreenState where
  "initialAuthScreenState =
     \<lparr>hasPermission_a = None, isRegistering_a = False, isProcessing = False,
      cameraRef_a = False\<rparr>"

definition captureImage :: "capture_outcome \<Rightarrow> AuthScreenState \<Rightarrow> string option \<times> effect list" where
  "captureImage cam a =
     (if \<not> cameraRef_a a then (None, [])
      else case cam of
        CaptureRejected e \<Rightarrow> (None, [TakePictureAsync, ConsoleError ''Error capturing image:''])
      | Photo b64 \<Rightarrow> (Some (dataUrl b64), [TakePictureAsync]))"

definition handleRegistration ::
  "capture_outcome \<Rightarrow> fetch_outcome \<Rightarrow> AuthState \<Rightarrow> AuthScreenState
     \<Rightarrow> AuthScreenState \<times> effect list" where
  "handleRegistration cam net au a =
     (let a1 = a\<lparr>isProcessing := True\<rparr> in
      case captureImage cam a1 of
        (None, effs) \<Rightarrow>
          (a1\<lparr>isProcessing := False\<rparr>, effs @ [AlertShown ''Error'' ERROR_FACE_REGISTRATION])
      | (Some imageData, effs) \<Rightarrow>
          (case registerFace imageData net au of
             (Inl e, effs') \<Rightarrow>
               (a1\<lparr>isProcessing := False\<rparr>,
                effs @ effs' @ [ConsoleError ''Registration error:'',
                                AlertShown ''Error'' ERROR_FACE_REGISTRATION])
           | (Inr success, effs') \<Rightarrow>
               if truthy success
               then (a1\<lparr>isRegistering_a := False, isProcessing := False\<rparr>,
                     effs @ effs' @ [AlertShown ''Success'' SUCCESS_FACE_REGISTERED])
               else (a1\<lparr>isProcessing := False\<rparr>,
                     effs @ effs' @ [AlertShown ''Error'' ERROR_FACE_REGISTRATION])))"

definition handleVerification ::
  "capture_outcome \<Rightarrow> fetch_outcome \<Rightarrow> bool \<Rightarrow> AuthState \<Rightarrow> AuthScreenState
     \<Rightarrow> AuthState \<times> AuthScreenState \<times> effect list" where
  "handleVerification cam net storage_ok au a =
     (let a1 = a\<lparr>isProcessing := True\<rparr> in
      case captureImage cam a1 of
        (None, effs) \<Rightarrow>
          (au, a1\<lparr>isProcessing := False\<rparr>,
           effs @ [AlertShown ''Error'' ERROR_FACE_VERIFICATION])
      | (Some imageData, effs) \<Rightarrow>
          (case verifyFace imageData net storage_ok au of
             (Inl e, au', effs') \<Rightarrow>
               (au', a1\<lparr>isProcessing := False\<rparr>,
                effs @ effs' @ [ConsoleError ''Verification error:'',
                                AlertShown ''Error'' ERROR_FACE_VERIFICATION])
           | (Inr success, au', effs') \<Rightarrow>
               if \<not> success
               then (au', a1\<lparr>isProcessing := False\<rparr>,
                     effs @ effs' @ [AlertShown ''Error'' ERROR_FACE_VERIFICATION])
               else (au', a1\<lparr>isProcessing := False\<rparr>, effs @ effs')))"

section \<open>PrivacyDashboardScreen: consent flags\<close>

record PrivacySettings =
  consents :: "string \<rightharpoonup> bool"
  retention_preferences :: "string \<rightharpoonup> int"
  data_usage_preferences :: "string \<rightharpoonup> string list"

record PrivacyState =
  settings :: "PrivacySettings option"
  loading :: bool
  saving :: bool

definition initialPrivacyState :: PrivacyState where
  "initialPrivacyState = \<lparr>settings = None, loading = True, saving = False\<rparr>"

text \<open>\<open>loadPrivacySettings\<close>: \<open>None\<close> is a failed GET.\<close>

definition loadPrivacySettings :: "PrivacySettings option \<Rightarrow> PrivacyState \<Rightarrow> PrivacyState \<times> effect list" where
  "loadPrivacySettings got p =
     (case got of
        Some d \<Rightarrow> (p\<lparr>settings := Some d, loading := False\<rparr>, [])
      | None \<Rightarrow> (p\<lparr>loading := False\<rparr>,
                 [AlertShown ''Error'' ''Failed to load privacy settings'']))"

text \<open>\<open>updateConsent\<close>: the new flag is kept only when the PUT succeeds (\<open>put_ok\<close>).\<close>

definition updateConsent :: "string \<Rightarrow> bool \<Rightarrow> bool \<Rightarrow> PrivacyState \<Rightarrow> PrivacyState \<times> effect list" where
  "updateConsent category v put_ok p =
     (case settings p of
        None \<Rightarrow> (p, [])
      | Some st \<Rightarrow>
          (let updatedSettings = st\<lparr>consents := (consents st)(category \<mapsto> v)\<rparr> in
           if put_ok
           then (p\<lparr>settings := Some updatedSettings, saving := False\<rparr>, [ApiPutSettings])
           else (p\<lparr>saving := False\<rparr>,
                 [ApiPutSettings, AlertShown ''Error'' ''Failed to update consent settings''])))"

section \<open>The application: the screens side by side, driven by events\<close>

record App =
  auth :: AuthState
  regScreen :: RegState
  privacy :: PrivacyState
  trace :: "effect list"

definition app0 :: App where
  "app0 = \<lparr>auth = initialState, regScreen = initialRegState,
            privacy = initialPrivacyState, trace = []\<rparr>"

text \<open>
  One event is one call of a handler, together with what its collaborators answer.
  \<open>login\<close> is exported by the context with the type \<open>(token: string, userId: string)\<close>;
  \<open>verifyFace\<close> is its only caller in the sources. \<open>EvRegisterFace\<close> and \<open>EvVerifyFace\<close>
  are calls of the two operations the context exports. \<open>EvRegCamera\<close> is the answer to
  the permission request of FaceRegistrationScreen, with the camera ref attached exactly
  when permission is granted (the camera is rendered only then). The handlers of one
  screen run one after the other, each on the state the previous one left.
\<close>

datatype event =
    EvLoadAuthState "(string option \<times> string option) option" "bool option"
  | EvLogin string string bool
  | EvLogout bool
  | EvRegisterFace string fetch_outcome
  | EvVerifyFace string fetch_outcome bool
  | EvRegCamera bool
  | EvFacesDetected "Face list"
  | EvTakePicture capture_outcome fetch_outcome bool
  | EvResetRegistration
  | EvLoadPrivacySettings "PrivacySettings option"
  | EvUpdateConsent string bool bool

fun step :: "event \<Rightarrow> App \<Rightarrow> App" where
  "step (EvLoadAuthState stored verify) app =
     (case loadAuthState stored verify (auth app) of
        (au, effs) \<Rightarrow> app\<lparr>auth := au, trace := trace app @ effs\<rparr>)"
| "step (EvLogin tok uid ok) app =
     (case login (JStr tok) uid ok (auth app) of
        (r, au, effs) \<Rightarrow> app\<lparr>auth := au, trace := trace app @ effs\<rparr>)"
| "step (EvLogout ok) app =
     (case logout ok (auth app) of
        (r, au, effs) \<Rightarrow> app\<lparr>auth := au, trace := trace app @ effs\<rparr>)"
| "step (EvRegisterFace img net) app =
     (case registerFace img net (auth app) of
        (r, effs) \<Rightarrow> app\<lparr>trace := trace app @ effs\<rparr>)"
| "step (EvVerifyFace img net ok) app =
     (case verifyFace img net ok (auth app) of
        (r, au, effs) \<Rightarrow> app\<lparr>auth := au, trace := trace app @ effs\<rparr>)"
| "step (EvRegCamera b) app =
     app\<lparr>regScreen := (regScreen app)\<lparr>hasPermission := Some b, cameraRef := b\<rparr>\<rparr>"
| "step (EvFacesDetected faces) app =
     app\<lparr>regScreen := handleFaceDetected faces (regScreen app)\<rparr>"
| "step (EvTakePicture cam net anim) app =
     (case takePicture cam net anim (auth app) (regScreen app) of
        (s, effs) \<Rightarrow> app\<lparr>regScreen := s, trace := trace app @ effs\<rparr>)"
| "step EvResetRegistration app =
     app\<lparr>regScreen := resetRegistration (regScreen app)\<rparr>"
| "step (EvLoadPrivacySettings got) app =
     (case loadPrivacySettings got (privacy app) of
        (p, effs) \<Rightarrow> app\<lparr>privacy := p, trace := trace app @ effs\<rparr>)"
| "step (EvUpdateConsent category v ok) app =
     (case updateConsent category v ok (privacy app) of
        (p, effs) \<Rightarrow> app\<lparr>privacy := p, trace := trace app @ effs\<rparr>)"

fun run :: "event list \<Rightarrow> App \<Rightarrow> App" where
  "run [] app = app"
| "run (e # es) app = run es (step e app)"

text \<open>
  The sources keep no sequence of attempts. What a run accumulates is the submissions it
  has issued to the Matcher so far.
\<close>

definition submissions :: "App \<Rightarrow> effect list" where
  "submissions app = matcher_calls (trace app)"

section \<open>The specification's wording of the scorer and of the centring evaluator\<close>

text \<open>
  The composite score as the specification words it: 0.4 when width and height both lie
  within the range 100 to 240 (bounds included), 0.3 when the face is centred, and a
  fixed 0.3.
\<close>

definition spec_compositeScore :: "Face \<Rightarrow> bool \<Rightarrow> rat" where
  "spec_compositeScore face centered =
     0.4 * (if 100 \<le> size_width face \<and> size_width face \<le> 240
               \<and> 100 \<le> size_height face \<and> size_height face \<le> 240 then 1 else 0)
     + 0.3 * (if centered then 1 else 0)
     + 0.3"

text \<open>
  The centring evaluator as the specification words it: the centroid lies inside the
  central rectangle that spans the middle \<open>band\<close> fraction of the frame, horizontally and
  vertically (the specification names bands of 25 to 40 percent).
\<close>

definition spec_isCentered :: "rat \<Rightarrow> Face \<Rightarrow> rat \<times> rat \<Rightarrow> bool" where
  "spec_isCentered band face frame =
     (let centerX = origin_x face + size_width face / 2;
          centerY = origin_y face + size_height face / 2
      in (1 - band) / 2 * fst frame < centerX \<and> centerX < (1 + band) / 2 * fst frame
         \<and> (1 - band) / 2 * snd frame < centerY \<and> centerY < (1 + band) / 2 * snd frame)"

text \<open>Whether the camera answered with a photo.\<close>

fun captured :: "capture_outcome \<Rightarrow> bool" where
  "captured (Photo b64) = True"
| "captured (CaptureRejected e) = False"

text \<open>The invariant of the authentication state: a token is held exactly when the state
  is authenticated, and a held token is never \<open>null\<close> or \<open>undefined\<close>.\<close>

definition token_inv :: "AuthState \<Rightarrow> bool" where
  "token_inv s =
     ((isAuthenticated s \<longleftrightarrow> token s \<noteq> None)
      \<and> token s \<noteq> Some JNull \<and> token s \<noteq> Some JUndefined)"

section \<open>The network operations never reject\<close>

lemma registerFace_cases:
  "registerFace img net s =
     (case net of
        JsonBody result \<Rightarrow>
          (case get_prop result ''success'' of
             Inl e \<Rightarrow> (Inr (JBool False),
                       [FetchRegister (bearer s) (userId s) img, ConsoleError ''Error registering face:''])
           | Inr v \<Rightarrow> (Inr v, [FetchRegister (bearer s) (userId s) img]))
      | _ \<Rightarrow> (Inr (JBool False),
               [FetchRegister (bearer s) (userId s) img, ConsoleError ''Error registering face:'']))"
  by (simp add: registerFace_def registerFace_try_def split: fetch_outcome.splits sum.splits)

lemma registerFace_resolves: "\<exists>v. fst (registerFace img net s) = Inr v"
  by (simp add: registerFace_cases split: fetch_outcome.splits sum.splits)

lemma verifyFace_resolves: "\<exists>b. fst (verifyFace img net ok s) = Inr b"
  by (cases "verifyFace_try img net ok s" rule: prod_cases3)
     (auto simp: verifyFace_def split: sum.splits)

lemma registerFace_caught:
  "fst (registerFace_try img net s) = Inl e \<Longrightarrow> fst (registerFace img net s) = Inr (JBool False)"
  by (cases "registerFace_try img net s") (simp add: registerFace_def)

lemma verifyFace_caught:
  "fst (verifyFace_try img net ok s) = Inl e \<Longrightarrow> fst (verifyFace img net ok s) = Inr False"
  by (cases "verifyFace_try img net ok s") (simp add: verifyFace_def)

text \<open>
  Claim C9. \<open>registerFace\<close> and \<open>verifyFace\<close> are total over the failure modes of the
  network call: for every image, every answer of the network and every outcome of the
  storage writes the promise resolves (\<open>Inr\<close>), never rejects (\<open>Inl\<close>); and whenever an
  error is thrown inside the \<open>try\<close> block (a failed fetch, a body that is not JSON, a
  TypeError on a \<open>null\<close> body, a failed \<open>login\<close>) the promise resolves to \<open>false\<close>.
\<close>

theorem registerFace_verifyFace_never_reject:
  "(\<exists>v. fst (registerFace img net s) = Inr v)
   \<and> (\<exists>b. fst (verifyFace img net ok s) = Inr b)
   \<and> (\<forall>e. fst (registerFace_try img net s) = Inl e
          \<longrightarrow> fst (registerFace img net s) = Inr (JBool False))
   \<and> (\<forall>e. fst (verifyFace_try img net ok s) = Inl e
          \<longrightarrow> fst (verifyFace img net ok s) = Inr False)
   \<and> fst (registerFace img FetchRejected s) = Inr (JBool False)
   \<and> fst (registerFace img JsonRejected s) = Inr (JBool False)
   \<and> fst (verifyFace img FetchRejected ok s) = Inr False
   \<and> fst (verifyFace img JsonRejected ok s) = Inr False"
  using registerFace_resolves verifyFace_resolves registerFace_caught verifyFace_caught
  by (auto simp: registerFace_cases verifyFace_def verifyFace_try_def)

theorem registerFace_verifyFace_never_reject_witness:
  "fst (registerFace_try ''img'' (JsonBody JNull) initialState) = Inl (ErrorObj ''TypeError'')
   \<and> fst (registerFace ''img'' (JsonBody JNull) initialState) = Inr (JBool False)
   \<and> fst (verifyFace_try ''img'' JsonRejected True initialState) = Inl (ErrorObj ''SyntaxError'')
   \<and> fst (verifyFace ''img'' JsonRejected True initialState) = Inr False"
  using registerFace_verifyFace_never_reject [of "''img''" "JsonBody JNull" initialState True]
    registerFace_verifyFace_never_reject [of "''img''" JsonRejected initialState True]
  by (simp add: registerFace_try_def verifyFace_try_def)

section \<open>Verification with a null user id\<close>



section \<open>When a token is held\<close>

lemma login_inv:
  "token_inv s \<Longrightarrow> tk \<noteq> JNull \<Longrightarrow> tk \<noteq> JUndefined
     \<Longrightarrow> token_inv (fst (snd (login tk u ok s)))"
  by (simp add: login_def token_inv_def Let_def)

lemma logout_inv: "token_inv s \<Longrightarrow> token_inv (fst (snd (logout ok s)))"
  by (simp add: logout_def token_inv_def Let_def)

lemma loadAuthState_inv: "token_inv (fst (loadAuthState st v s))"
  by (auto simp: loadAuthState_def token_inv_def initialState_def Let_def split: option.splits)

text \<open>\<open>verifyFace\<close> either resolves to \<open>true\<close> and has stored the token of the response,
  or resolves to \<open>false\<close> and has left the state alone.\<close>

lemma verifyFace_dichotomy:
  "(fst (verifyFace img net ok s) = Inr True
      \<and> (\<exists>result tk. net = JsonBody result \<and> get_prop result ''access_token'' = Inr tk
            \<and> truthy tk
            \<and> fst (snd (verifyFace img net ok s)) =
                \<lparr>isAuthenticated = True, token = Some tk,
                 userId = Some (case userId s of None \<Rightarrow> [] | Some u \<Rightarrow> u), isLoading = False\<rparr>))
   \<or> (fst (verifyFace img net ok s) = Inr False \<and> fst (snd (verifyFace img net ok s)) = s)"
  by (auto simp: verifyFace_def verifyFace_try_def login_def Let_def
           split: fetch_outcome.splits sum.splits)

lemma verifyFace_inv: "token_inv s \<Longrightarrow> token_inv (fst (snd (verifyFace img net ok s)))"
  using verifyFace_dichotomy [of img net ok s] by (auto simp: token_inv_def)

lemma step_inv: "token_inv (auth app) \<Longrightarrow> token_inv (auth (step e app))"
proof (cases e)
  case (EvLoadAuthState st v)
  then show ?thesis using loadAuthState_inv [of st v "auth app"]
    by (simp add: case_prod_beta)
next
  case (EvLogin tk u ok)
  assume "token_inv (auth app)"
  then show ?thesis using EvLogin login_inv [of "auth app" "JStr tk" u ok]
    by (simp add: case_prod_beta)
next
  case (EvLogout ok)
  assume "token_inv (auth app)"
  then show ?thesis using EvLogout logout_inv [of "auth app" ok]
    by (simp add: case_prod_beta)
next
  case (EvVerifyFace img net ok)
  assume "token_inv (auth app)"
  then show ?thesis using EvVerifyFace verifyFace_inv [of "auth app" img net ok]
    by (simp add: case_prod_beta)
qed (simp_all add: case_prod_beta)

lemma run_inv: "token_inv (auth app) \<Longrightarrow> token_inv (auth (run es app))"
  by (induction es arbitrary: app) (simp_all add: step_inv)

lemma app0_inv: "token_inv (auth app0)"
  by (simp add: token_inv_def app0_def initialState_def)

text \<open>\<open>verifyFace\<close> resolves to \<open>true\<close> exactly for a response whose \<open>success\<close> and
  \<open>access_token\<close> are truthy, the storage writes succeeding.\<close>

lemma verifyFace_true_iff:
  "fst (verifyFace img net ok s) = Inr True \<longleftrightarrow>
     ok \<and> (\<exists>result sv tk. net = JsonBody result
              \<and> get_prop result ''success'' = Inr sv \<and> truthy sv
              \<and> get_prop result ''access_token'' = Inr tk \<and> truthy tk)"
  by (auto simp: verifyFace_def verifyFace_try_def login_def Let_def
           split: fetch_outcome.splits sum.splits)

lemma verifyFace_success:
  assumes "get_prop result ''success'' = Inr sv" and "truthy sv"
    and "get_prop result ''access_token'' = Inr tk" and "truthy tk"
  shows "verifyFace img (JsonBody result) True s =
           (Inr True,
            \<lparr>isAuthenticated = True, token = Some tk,
             userId = Some (case userId s of None \<Rightarrow> [] | Some u \<Rightarrow> u), isLoading = False\<rparr>,
            [FetchVerify (userId s) img, StorageSet AUTH_TOKEN_KEY tk,
             StorageSet USER_ID_KEY (JStr (case userId s of None \<Rightarrow> [] | Some u \<Rightarrow> u))])"
  using assms by (simp add: verifyFace_def verifyFace_try_def login_def)

text \<open>A storage write is issued exactly for such a response.\<close>

lemma verifyFace_writes_iff:
  "(\<exists>k v. StorageSet k v \<in> set (snd (snd (verifyFace img net ok s)))) \<longleftrightarrow>
     (\<exists>result sv tk. net = JsonBody result
              \<and> get_prop result ''success'' = Inr sv \<and> truthy sv
              \<and> get_prop result ''access_token'' = Inr tk \<and> truthy tk)"
  by (auto simp: verifyFace_def verifyFace_try_def login_def Let_def
           split: fetch_outcome.splits sum.splits)

text \<open>
  Claim C3, as the sources have it. \<open>verifyFace\<close> produces and stores a token exactly
  when the verification succeeds: it resolves to \<open>true\<close> if and only if the response
  carries a truthy \<open>success\<close> and a truthy \<open>access_token\<close> and the storage writes go
  through; it then holds that token in the state and has written the token and the user
  id to storage. Otherwise it resolves to \<open>false\<close> and leaves the state unchanged, and
  without such a response it issues no storage write. In every state the application
  reaches, the state holds a token exactly when \<open>isAuthenticated\<close> holds: in any other
  state a caller reads \<open>null\<close>. The sources have no \<open>getToken\<close> and no error result.
\<close>

theorem verifyFace_token_iff_success:
  "(fst (verifyFace img net ok s) = Inr True \<longleftrightarrow>
      ok \<and> (\<exists>result sv tk. net = JsonBody result
               \<and> get_prop result ''success'' = Inr sv \<and> truthy sv
               \<and> get_prop result ''access_token'' = Inr tk \<and> truthy tk))
   \<and> (\<forall>result sv tk.
         net = JsonBody result \<and> get_prop result ''success'' = Inr sv \<and> truthy sv
           \<and> get_prop result ''access_token'' = Inr tk \<and> truthy tk \<and> ok
         \<longrightarrow> verifyFace img net ok s =
               (Inr True,
                \<lparr>isAuthenticated = True, token = Some tk,
                 userId = Some (case userId s of None \<Rightarrow> [] | Some u \<Rightarrow> u),
                 isLoading = False\<rparr>,
                [FetchVerify (userId s) img, StorageSet AUTH_TOKEN_KEY tk,
                 StorageSet USER_ID_KEY (JStr (case userId s of None \<Rightarrow> [] | Some u \<Rightarrow> u))]))
   \<and> (fst (verifyFace img net ok s) \<noteq> Inr True
         \<longrightarrow> fst (verifyFace img net ok s) = Inr False
             \<and> fst (snd (verifyFace img net ok s)) = s)
   \<and> ((\<exists>k v. StorageSet k v \<in> set (snd (snd (verifyFace img net ok s)))) \<longleftrightarrow>
        (\<exists>result sv tk. net = JsonBody result
               \<and> get_prop result ''success'' = Inr sv \<and> truthy sv
               \<and> get_prop result ''access_token'' = Inr tk \<and> truthy tk))
   \<and> (isAuthenticated (auth (run es app0)) \<longleftrightarrow> token (auth (run es app0)) \<noteq> None)"
proof -
  have a: "\<forall>result sv tk.
         net = JsonBody result \<and> get_prop result ''success'' = Inr sv \<and> truthy sv
           \<and> get_prop result ''access_token'' = Inr tk \<and> truthy tk \<and> ok
         \<longrightarrow> verifyFace img net ok s =
               (Inr True,
                \<lparr>isAuthenticated = True, token = Some tk,
                 userId = Some (case userId s of None \<Rightarrow> [] | Some u \<Rightarrow> u),
                 isLoading = False\<rparr>,
                [FetchVerify (userId s) img, StorageSet AUTH_TOKEN_KEY tk,
                 StorageSet USER_ID_KEY (JStr (case userId s of None \<Rightarrow> [] | Some u \<Rightarrow> u))])"
  proof (intro allI impI, elim conjE)
    fix result sv tk
    assume "net = JsonBody result" "get_prop result ''success'' = Inr sv" "truthy sv"
      "get_prop result ''access_token'' = Inr tk" "truthy tk" "ok"
    then show "verifyFace img net ok s =
               (Inr True,
                \<lparr>isAuthenticated = True, token = Some tk,
                 userId = Some (case userId s of None \<Rightarrow> [] | Some u \<Rightarrow> u),
                 isLoading = False\<rparr>,
                [FetchVerify (userId s) img, StorageSet AUTH_TOKEN_KEY tk,
                 StorageSet USER_ID_KEY (JStr (case userId s of None \<Rightarrow> [] | Some u \<Rightarrow> u))])"
      using verifyFace_success [of result sv tk img s] by simp
  qed
  have b: "fst (verifyFace img net ok s) \<noteq> Inr True
         \<longrightarrow> fst (verifyFace img net ok s) = Inr False
             \<and> fst (snd (verifyFace img net ok s)) = s"
    using verifyFace_dichotomy [of img net ok s] by blast
  have c: "isAuthenticated (auth (run es app0)) \<longleftrightarrow> token (auth (run es app0)) \<noteq> None"
    using run_inv [OF app0_inv, of es] by (simp add: token_inv_def)
  show ?thesis
    using verifyFace_true_iff [of img net ok s] a b verifyFace_writes_iff [of img net ok s] c
    by blast
qed

theorem verifyFace_token_iff_success_witness:
  "verifyFace ''img'' (JsonBody (JObj [(''success'', JBool True), (''access_token'', JStr ''t0'')]))
      True initialState =
     (Inr True,
      \<lparr>isAuthenticated = True, token = Some (JStr ''t0''), userId = Some [], isLoading = False\<rparr>,
      [FetchVerify None ''img'', StorageSet AUTH_TOKEN_KEY (JStr ''t0''),
       StorageSet USER_ID_KEY (JStr [])])
   \<and> fst (verifyFace ''img'' (JsonBody (JObj [(''success'', JBool False), (''access_token'', JStr ''t0'')]))
        True initialState) \<noteq> Inr True
   \<and> fst (verifyFace ''img'' (JsonBody (JObj [(''success'', JBool False), (''access_token'', JStr ''t0'')]))
        True initialState) = Inr False
   \<and> fst (snd (verifyFace ''img''
        (JsonBody (JObj [(''success'', JBool False), (''access_token'', JStr ''t0'')]))
        True initialState)) = initialState"
  using verifyFace_token_iff_success
      [of "''img''" "JsonBody (JObj [(''success'', JBool True), (''access_token'', JStr ''t0'')])"
        True initialState "[]"]
    verifyFace_token_iff_success
      [of "''img''" "JsonBody (JObj [(''success'', JBool False), (''access_token'', JStr ''t0'')])"
        True initialState "[]"]
  by (simp add: initialState_def)

text \<open>
  Claim C3 as the specification states it fails: a token is held without the session
  ever reaching a successful verification. When the application starts with a token and
  a user id in storage and the backend accepts the token, \<open>loadAuthState\<close> makes the
  state authenticated with that token, and nothing has been submitted to the Matcher.
\<close>

theorem token_held_without_verification:
  "isAuthenticated (auth (run [EvLoadAuthState (Some (Some ''t0'', Some ''u0'')) (Some True)] app0))
   \<and> token (auth (run [EvLoadAuthState (Some (Some ''t0'', Some ''u0'')) (Some True)] app0))
       = Some (JStr ''t0'')
   \<and> submissions (run [EvLoadAuthState (Some (Some ''t0'', Some ''u0'')) (Some True)] app0) = []"
  by (simp add: app0_def initialState_def loadAuthState_def submissions_def matcher_calls_def
        Let_def)

section \<open>The composite quality score\<close>

text \<open>
  Claim C4, as the sources have it. The composite score that \<open>checkFaceQuality\<close> stores
  is the weighted sum of three terms: 0.4 exactly when width and height both lie
  strictly between 100 and 240 (a side of exactly 100 or 240 pixels earns nothing),
  0.3 exactly when the \<open>isFaceCentered\<close> flag the scorer reads is set, and a fixed 0.3.
\<close>

theorem composite_score_formula:
  "qualityScore (snd (checkFaceQuality r face s)) =
     0.4 * (if 100 < size_width face \<and> size_width face < 240
               \<and> 100 < size_height face \<and> size_height face < 240 then 1 else 0)
     + 0.3 * (if isFaceCentered r then 1 else 0)
     + 0.3"
  by (simp add: checkFaceQuality_def Let_def)

text \<open>
  Claim C4 as the specification states it fails on the bounds: a centred face of 100 by
  100 pixels lies within the range 100 to 240, so the specification's sum is 1, while
  \<open>checkFaceQuality\<close> stores 0.6.
\<close>

theorem size_bounds_are_exclusive:
  "qualityScore (snd (checkFaceQuality
       (initialRegState\<lparr>isFaceCentered := True\<rparr>)
       \<lparr>origin_x = 150, origin_y = 250, size_width = 100, size_height = 100\<rparr>
       (initialRegState\<lparr>isFaceCentered := True\<rparr>))) = 0.6
   \<and> spec_compositeScore
       \<lparr>origin_x = 150, origin_y = 250, size_width = 100, size_height = 100\<rparr> True = 1"
  by (simp add: checkFaceQuality_def spec_compositeScore_def initialRegState_def Let_def)

text \<open>
  Claim C5, as the sources have it. The scorer is a total function of a face and the
  flag it reads; its score is one of 0.3, 0.6, 0.7 and 1, hence within [0,1]. A box of
  zero width or height scores the baseline 0.3, or 0.6 when the centred flag is set,
  never 0.
\<close>

theorem score_range_and_zero_area:
  "0 \<le> qualityScore (snd (checkFaceQuality r face s))
   \<and> qualityScore (snd (checkFaceQuality r face s)) \<le> 1
   \<and> qualityScore (snd (checkFaceQuality r face s)) \<in> {0.3, 0.6, 0.7, 1}
   \<and> (size_width face = 0 \<or> size_height face = 0 \<longrightarrow>
        qualityScore (snd (checkFaceQuality r face s)) = (if isFaceCentered r then 0.6 else 0.3))"
  by (simp add: checkFaceQuality_def Let_def)

theorem score_range_and_zero_area_witness:
  "size_width \<lparr>origin_x = 10, origin_y = 10, size_width = 0, size_height = 50\<rparr> = 0
   \<and> qualityScore (snd (checkFaceQuality initialRegState
        \<lparr>origin_x = 10, origin_y = 10, size_width = 0, size_height = 50\<rparr> initialRegState)) = 0.3"
  using score_range_and_zero_area
      [of initialRegState "\<lparr>origin_x = 10, origin_y = 10, size_width = 0, size_height = 50\<rparr>"
        initialRegState]
  by (simp add: initialRegState_def)

text \<open>
  Claim C5 as the specification states it fails on malformed geometry: a box of zero
  width and height does not score 0.
\<close>

theorem zero_area_scores_baseline:
  "size_width \<lparr>origin_x = 0, origin_y = 0, size_width = 0, size_height = 0\<rparr>
     * size_height \<lparr>origin_x = 0, origin_y = 0, size_width = 0, size_height = 0\<rparr> = 0
   \<and> qualityScore (snd (checkFaceQuality initialRegState
        \<lparr>origin_x = 0, origin_y = 0, size_width = 0, size_height = 0\<rparr> initialRegState)) \<noteq> 0"
  by (simp add: checkFaceQuality_def initialRegState_def Let_def)

section \<open>Doubles that are computed exactly\<close>

lemma round_half_even_of_int [simp]: "round_half_even (of_int m) = m"
  by (simp add: round_half_even_def)

lemma bitlen_range:
  assumes "1 \<le> (n::int)" "n < 2 ^ 52"
  shows "1 \<le> bitlen n \<and> bitlen n \<le> 52"
proof -
  have "0 < n" using assms by simp
  from bitlen_bounds [OF this]
  have b: "2 ^ nat (bitlen n - 1) \<le> n" "n < 2 ^ nat (bitlen n)" by auto
  have "bitlen n \<ge> 1"
  proof (rule ccontr)
    assume "\<not> 1 \<le> bitlen n"
    then have "nat (bitlen n) = 0" by simp
    with b(2) assms show False by simp
  qed
  moreover have "bitlen n \<le> 52"
  proof (rule ccontr)
    assume "\<not> bitlen n \<le> 52"
    then have "52 \<le> nat (bitlen n - 1)" by simp
    then have "(2::int) ^ 52 \<le> 2 ^ nat (bitlen n - 1)" by (rule power_increasing) simp
    with b(1) assms show False by linarith
  qed
  ultimately show ?thesis by simp
qed

lemma dbl_unfold:
  "x \<noteq> 0 \<Longrightarrow> dbl x =
     sgn x * min (of_int (round_half_even (\<bar>x\<bar> / pow2 (max (ilog2 \<bar>x\<bar>) (- 1022) - 52)))
                    * pow2 (max (ilog2 \<bar>x\<bar>) (- 1022) - 52)) (2 ^ 1024)"
  by (simp add: dbl_def Let_def)

text \<open>An integer or a half-integer below \<open>2^52\<close> is a double: rounding leaves it alone.\<close>

lemma dbl_half_int:
  assumes "\<bar>k\<bar> < 2 ^ 53"
  shows "dbl (of_int k / 2) = of_int k / 2"
proof (cases "k = 0")
  case True
  then show ?thesis by (simp add: dbl_def)
next
  case False
  define a :: rat where "a = \<bar>of_int k / 2\<bar>"
  have a_eq: "a = of_int \<bar>k\<bar> / 2" by (simp add: a_def)
  have kpos: "1 \<le> \<bar>k\<bar>" using False by simp
  have a_hi: "a < 2 ^ 52"
  proof -
    have "(of_int \<bar>k\<bar> :: rat) < of_int (2 ^ 53)" using assms by (simp only: of_int_less_iff)
    then show ?thesis by (simp add: a_eq)
  qed
  have e_rng: "- 1 \<le> ilog2 a \<and> ilog2 a \<le> 51"
  proof (cases "1 \<le> a")
    case True
    have f1: "1 \<le> \<lfloor>a\<rfloor>" using True by simp
    have f2: "\<lfloor>a\<rfloor> < 2 ^ 52" using a_hi by (simp add: floor_less_iff)
    from bitlen_range [OF f1 f2] True show ?thesis by (simp add: ilog2_def)
  next
    case lt: False
    then have "\<bar>k\<bar> < 2" by (simp add: a_eq)
    with kpos have "\<bar>k\<bar> = 1" by simp
    then have h: "a = 1 / 2" by (simp add: a_eq)
    have "ilog2 (1 / 2) = - 1" by code_simp
    then show ?thesis unfolding h by simp
  qed
  define n where "n = nat (52 - ilog2 a)"
  have n_rng: "1 \<le> n" using e_rng unfolding n_def by linarith
  have q_eq: "pow2 (max (ilog2 a) (- 1022) - 52) = 1 / 2 ^ n"
  proof -
    have "max (ilog2 a) (- 1022) = ilog2 a" using e_rng by simp
    moreover have "\<not> 0 \<le> ilog2 a - 52" using e_rng by simp
    moreover have "nat (- (ilog2 a - 52)) = n" by (simp add: n_def)
    ultimately show ?thesis by (simp add: pow2_def)
  qed
  have "a / (1 / 2 ^ n) = of_int \<bar>k\<bar> / 2 * 2 ^ n" by (simp add: a_eq)
  also have "\<dots> = of_int \<bar>k\<bar> * 2 ^ (n - 1)"
  proof -
    have "(2::rat) ^ n = 2 * 2 ^ (n - 1)" using n_rng by (cases n) simp_all
    then show ?thesis by simp
  qed
  also have "\<dots> = of_int (\<bar>k\<bar> * 2 ^ (n - 1))" by simp
  finally have m: "a / (1 / 2 ^ n) = of_int (\<bar>k\<bar> * 2 ^ (n - 1))" .
  have r: "of_int (round_half_even (a / (1 / 2 ^ n))) * (1 / 2 ^ n) = a"
  proof -
    have "of_int (round_half_even (a / (1 / 2 ^ n))) * (1 / 2 ^ n) = a / (1 / 2 ^ n) * (1 / 2 ^ n)"
      by (simp only: m round_half_even_of_int)
    then show ?thesis by simp
  qed
  have le: "a \<le> 2 ^ 1024"
  proof -
    have "(2::rat) ^ 52 \<le> 2 ^ 1024" by (rule power_increasing) simp_all
    with a_hi show ?thesis by linarith
  qed
  have nz: "of_int k / 2 \<noteq> (0::rat)" using False by simp
  have "dbl (of_int k / 2) = sgn (of_int k / 2 :: rat) * min a (2 ^ 1024)"
    by (simp only: dbl_unfold [OF nz] a_def [symmetric] q_eq r)
  also have "\<dots> = sgn (of_int k / 2 :: rat) * a" using le by (simp add: min_def)
  also have "\<dots> = of_int k / 2" unfolding a_def by (rule sgn_mult_abs)
  finally show ?thesis .
qed

lemma dbl_of_int:
  assumes "\<bar>k\<bar> < 2 ^ 52"
  shows "dbl (of_int k) = of_int k"
proof -
  have "\<bar>2 * k\<bar> < 2 ^ 53" using assms by simp
  from dbl_half_int [OF this] show ?thesis by simp
qed

lemma dbl_numeral [simp]:
  "(numeral n :: int) < 2 ^ 52 \<Longrightarrow> dbl (numeral n) = numeral n"
  using dbl_of_int [of "numeral n"] by simp

lemma dbl_zero [simp]: "dbl 0 = 0"
  by (simp add: dbl_def)

text \<open>With integer pixel bounds below \<open>2^50\<close> the centroid is computed exactly.\<close>

lemma centroid_exact:
  assumes "\<bar>a\<bar> < 2 ^ 50" and "\<bar>b\<bar> < 2 ^ 50"
  shows "dbl (of_int a + dbl (of_int b / 2)) = of_int a + of_int b / 2"
proof -
  have b: "dbl (of_int b / 2) = of_int b / 2"
    using assms(2) by (intro dbl_half_int) simp
  have e: "of_int a + of_int b / 2 = (of_int (2 * a + b) / 2 :: rat)" by simp
  have "\<bar>2 * a + b\<bar> < 2 ^ 53" using assms by simp
  from dbl_half_int [OF this]
  have c: "dbl (of_int (2 * a + b) / 2) = of_int (2 * a + b) / 2" .
  show ?thesis by (simp only: b e c)
qed

section \<open>The centring evaluation\<close>

text \<open>
  Claim C6, as the sources have it. \<open>handleFaceDetected\<close> marks the face centred exactly
  when the centroid it computes for the first detected face, origin + size / 2 in double
  arithmetic, lies strictly inside the fixed rectangle 160 < x < 240, 260 < y < 340, in
  pixels; no frame size enters. For integer pixel bounds (below \<open>2^50\<close>) the computed
  centroid is the exact one. With no face detected the flag is cleared. The result
  depends on the first face's bounds only, and it is stored in the screen's state.
\<close>

theorem centering_fixed_rectangle:
  "(isFaceCentered (handleFaceDetected (face # others) s) \<longleftrightarrow>
      160 < dbl (origin_x face + dbl (size_width face / 2))
      \<and> dbl (origin_x face + dbl (size_width face / 2)) < 240
      \<and> 260 < dbl (origin_y face + dbl (size_height face / 2))
      \<and> dbl (origin_y face + dbl (size_height face / 2)) < 340)
   \<and> \<not> isFaceCentered (handleFaceDetected [] s)
   \<and> (\<forall>a b c d :: int.
        \<bar>a\<bar> < 2 ^ 50 \<and> \<bar>b\<bar> < 2 ^ 50 \<and> \<bar>c\<bar> < 2 ^ 50 \<and> \<bar>d\<bar> < 2 ^ 50 \<longrightarrow>
        (isFaceCentered (handleFaceDetected
            (\<lparr>origin_x = of_int a, origin_y = of_int c,
              size_width = of_int b, size_height = of_int d\<rparr> # others) s) \<longleftrightarrow>
           160 < of_int a + (of_int b / 2 :: rat) \<and> of_int a + (of_int b / 2 :: rat) < 240
           \<and> 260 < of_int c + (of_int d / 2 :: rat) \<and> of_int c + (of_int d / 2 :: rat) < 340))"
  by (simp add: handleFaceDetected_def checkFaceQuality_def Let_def centroid_exact)

theorem centering_fixed_rectangle_witness:
  "\<bar>150 :: int\<bar> < 2 ^ 50 \<and> \<bar>100 :: int\<bar> < 2 ^ 50 \<and> \<bar>250 :: int\<bar> < 2 ^ 50
   \<and> isFaceCentered (handleFaceDetected
        [\<lparr>origin_x = 150, origin_y = 250, size_width = 100, size_height = 100\<rparr>] initialRegState)
   \<and> \<not> isFaceCentered (handleFaceDetected
        [\<lparr>origin_x = 110, origin_y = 250, size_width = 100, size_height = 100\<rparr>] initialRegState)"
proof -
  have "isFaceCentered (handleFaceDetected
        [\<lparr>origin_x = of_int 150, origin_y = of_int 250,
          size_width = of_int 100, size_height = of_int 100\<rparr>] initialRegState)"
    using centering_fixed_rectangle [of _ "[]" initialRegState] by simp
  moreover have "\<not> isFaceCentered (handleFaceDetected
        [\<lparr>origin_x = of_int 110, origin_y = of_int 250,
          size_width = of_int 100, size_height = of_int 100\<rparr>] initialRegState)"
    using centering_fixed_rectangle [of _ "[]" initialRegState] by simp
  ultimately show ?thesis by simp
qed

text \<open>
  Claim C6 as the specification states it fails: a face whose centroid is the exact
  centre of a frame of 800 by 1200 pixels is inside every central band of that frame,
  and is not centred for the sources; nor is a face with centroid (155, 300) in a frame
  of 400 by 600, which the bands of 25 and 40 percent contain.
\<close>

theorem centering_ignores_frame_size:
  "spec_isCentered (1/4) \<lparr>origin_x = 300, origin_y = 500, size_width = 200, size_height = 200\<rparr> (800, 1200)
   \<and> spec_isCentered (2/5) \<lparr>origin_x = 300, origin_y = 500, size_width = 200, size_height = 200\<rparr> (800, 1200)
   \<and> \<not> isFaceCentered (handleFaceDetected
         [\<lparr>origin_x = 300, origin_y = 500, size_width = 200, size_height = 200\<rparr>] initialRegState)
   \<and> spec_isCentered (1/4) \<lparr>origin_x = 105, origin_y = 250, size_width = 100, size_height = 100\<rparr> (400, 600)
   \<and> spec_isCentered (2/5) \<lparr>origin_x = 105, origin_y = 250, size_width = 100, size_height = 100\<rparr> (400, 600)
   \<and> \<not> isFaceCentered (handleFaceDetected
         [\<lparr>origin_x = 105, origin_y = 250, size_width = 100, size_height = 100\<rparr>] initialRegState)"
  by (simp add: spec_isCentered_def handleFaceDetected_def checkFaceQuality_def Let_def)

text \<open>
  Rounding is visible at the edge of the rectangle: a box at x = 160 of width
  \<open>2^-60\<close> has its exact centroid inside, and the sum rounds to 160, which is outside.
\<close>

lemma round_half_even_edge:
  "round_half_even (160 * 2 ^ 45 + 1 / 2 ^ 16) = 160 * 2 ^ 45"
proof -
  have f: "\<lfloor>160 * 2 ^ 45 + 1 / 2 ^ 16 :: rat\<rfloor> = 160 * 2 ^ 45"
    by (rule floor_unique) simp_all
  show ?thesis unfolding round_half_even_def Let_def f by simp
qed

lemma dbl_tiny_half: "dbl (1 / 2 ^ 61) = 1 / 2 ^ 61"
proof -
  have nz: "(1 / 2 ^ 61 :: rat) \<noteq> 0" by simp
  have ab: "\<bar>1 / 2 ^ 61 :: rat\<bar> = 1 / 2 ^ 61" by simp
  have i: "ilog2 (1 / 2 ^ 61) = - 61" by code_simp
  have q: "pow2 (max (- 61) (- 1022) - 52) = 1 / 2 ^ 113" by (simp add: pow2_def)
  have dv: "(1 / 2 ^ 61) / (1 / 2 ^ 113) = (of_int (2 ^ 52) :: rat)" by simp
  have "dbl (1 / 2 ^ 61) =
          sgn (1 / 2 ^ 61 :: rat) * min (of_int (2 ^ 52) * (1 / 2 ^ 113)) (2 ^ 1024)"
    by (simp only: dbl_unfold [OF nz] ab i q dv round_half_even_of_int)
  also have "\<dots> = 1 / 2 ^ 61" by simp
  finally show ?thesis .
qed

lemma dbl_edge: "dbl (160 + 1 / 2 ^ 61) = 160"
proof -
  have nz: "(160 + 1 / 2 ^ 61 :: rat) \<noteq> 0" by simp
  have ab: "\<bar>160 + 1 / 2 ^ 61 :: rat\<bar> = 160 + 1 / 2 ^ 61" by simp
  have i: "ilog2 (160 + 1 / 2 ^ 61) = 7" by code_simp
  have q: "pow2 (max 7 (- 1022) - 52) = 1 / 2 ^ 45" by (simp add: pow2_def)
  have dv: "(160 + 1 / 2 ^ 61) / (1 / 2 ^ 45) = (160 * 2 ^ 45 + 1 / 2 ^ 16 :: rat)" by simp
  have "dbl (160 + 1 / 2 ^ 61) =
          sgn (160 + 1 / 2 ^ 61 :: rat) * min (of_int (160 * 2 ^ 45) * (1 / 2 ^ 45)) (2 ^ 1024)"
    by (simp only: dbl_unfold [OF nz] ab i q dv round_half_even_edge)
  also have "\<dots> = 160" by simp
  finally show ?thesis .
qed

lemma centering_rounds_at_the_edge:
  "160 < origin_x \<lparr>origin_x = 160, origin_y = 250, size_width = 1 / 2 ^ 60, size_height = 100\<rparr>
           + size_width \<lparr>origin_x = 160, origin_y = 250, size_width = 1 / 2 ^ 60, size_height = 100\<rparr> / 2
   \<and> \<not> isFaceCentered (handleFaceDetected
       [\<lparr>origin_x = 160, origin_y = 250, size_width = 1 / 2 ^ 60, size_height = 100\<rparr>]
       initialRegState)"
proof -
  have h: "(1 / 2 ^ 60 / 2 :: rat) = 1 / 2 ^ 61" by simp
  have "dbl (160 + dbl (1 / 2 ^ 60 / 2)) = 160" by (simp only: h dbl_tiny_half dbl_edge)
  then show ?thesis by (simp add: handleFaceDetected_def checkFaceQuality_def Let_def)
qed

text \<open>
  More generally: for no frame of integer size and no band between 25 and 40 percent
  does the proportional rectangle of the specification agree with the sources on every
  face.
\<close>

lemma centering_not_proportional:
  "\<not> (\<exists>(fw::int) (fh::int) band.
         0 < fw \<and> fw < 2 ^ 49 \<and> 0 < fh \<and> fh < 2 ^ 49 \<and> 1/4 \<le> band \<and> band \<le> 2/5
        \<and> (\<forall>face. isFaceCentered (handleFaceDetected [face] s)
                    \<longleftrightarrow> spec_isCentered band face (of_int fw, of_int fh)))"
proof
  assume "\<exists>(fw::int) (fh::int) band.
         0 < fw \<and> fw < 2 ^ 49 \<and> 0 < fh \<and> fh < 2 ^ 49 \<and> 1/4 \<le> band \<and> band \<le> 2/5
        \<and> (\<forall>face. isFaceCentered (handleFaceDetected [face] s)
                    \<longleftrightarrow> spec_isCentered band face (of_int fw, of_int fh))"
  then obtain fw fh :: int and band :: rat where fw: "0 < fw" "fw < 2 ^ 49"
    and fh: "0 < fh" "fh < 2 ^ 49"
    and lo: "1/4 \<le> band" and hi: "band \<le> 2/5"
    and agree: "\<And>face. isFaceCentered (handleFaceDetected [face] s)
                    \<longleftrightarrow> spec_isCentered band face (of_int fw, of_int fh)"
    by blast
  define W :: rat where "W = of_int fw"
  define H :: rat where "H = of_int fh"
  have Wpos: "0 < W" and Hpos: "0 < H" using fw fh by (simp_all add: W_def H_def)
  have code: "\<And>a b. \<bar>a\<bar> < 2 ^ 50 \<Longrightarrow> \<bar>b\<bar> < 2 ^ 50 \<Longrightarrow>
        isFaceCentered (handleFaceDetected
          [\<lparr>origin_x = of_int a, origin_y = 0, size_width = of_int b, size_height = of_int fh\<rparr>] s)
        \<longleftrightarrow> 160 < of_int a + (of_int b / 2 :: rat) \<and> of_int a + (of_int b / 2 :: rat) < 240
            \<and> 260 < H / 2 \<and> H / 2 < 340"
  proof -
    fix a b :: int
    assume a: "\<bar>a\<bar> < 2 ^ 50" and b: "\<bar>b\<bar> < 2 ^ 50"
    have h: "\<bar>fh\<bar> < 2 ^ 50" using fh by simp
    have y': "dbl (of_int fh / 2) = of_int fh / 2" using h by (intro dbl_half_int) simp
    have y: "dbl (dbl (of_int fh / 2)) = H / 2" by (simp only: y' H_def)
    have x: "dbl (of_int a + dbl (of_int b / 2)) = of_int a + of_int b / 2"
      by (rule centroid_exact [OF a b])
    have "isFaceCentered (handleFaceDetected
          [\<lparr>origin_x = of_int a, origin_y = 0, size_width = of_int b, size_height = of_int fh\<rparr>] s)
        \<longleftrightarrow> 160 < dbl (of_int a + dbl (of_int b / 2)) \<and> dbl (of_int a + dbl (of_int b / 2)) < 240
            \<and> 260 < dbl (dbl (of_int fh / 2)) \<and> dbl (dbl (of_int fh / 2)) < 340"
      by (simp add: handleFaceDetected_def checkFaceQuality_def Let_def)
    then show "isFaceCentered (handleFaceDetected
          [\<lparr>origin_x = of_int a, origin_y = 0, size_width = of_int b, size_height = of_int fh\<rparr>] s)
        \<longleftrightarrow> 160 < of_int a + (of_int b / 2 :: rat) \<and> of_int a + (of_int b / 2 :: rat) < 240
            \<and> 260 < H / 2 \<and> H / 2 < 340"
      by (simp only: x y)
  qed
  have spec: "\<And>a b. spec_isCentered band
        \<lparr>origin_x = of_int a, origin_y = 0, size_width = of_int b, size_height = of_int fh\<rparr>
        (of_int fw, of_int fh)
        \<longleftrightarrow> (1 - band) / 2 * W < of_int a + of_int b / 2
            \<and> of_int a + of_int b / 2 < (1 + band) / 2 * W
            \<and> (1 - band) / 2 * H < H / 2 \<and> H / 2 < (1 + band) / 2 * H"
    by (simp add: spec_isCentered_def Let_def W_def H_def)
  have bpos: "0 < band" "band < 1" using lo hi by auto
  have midH: "(1 - band) / 2 * H < H / 2 \<and> H / 2 < (1 + band) / 2 * H"
    using Hpos bpos by (simp add: field_simps)
  have midW: "(1 - band) / 2 * W < W / 2 \<and> W / 2 < (1 + band) / 2 * W"
    using Wpos bpos by (simp add: field_simps)
  have pt: "\<And>a b. \<bar>a\<bar> < 2 ^ 50 \<Longrightarrow> \<bar>b\<bar> < 2 ^ 50 \<Longrightarrow>
        (160 < of_int a + (of_int b / 2 :: rat) \<and> of_int a + (of_int b / 2 :: rat) < 240
            \<and> 260 < H / 2 \<and> H / 2 < 340)
        \<longleftrightarrow> ((1 - band) / 2 * W < of_int a + of_int b / 2
            \<and> of_int a + of_int b / 2 < (1 + band) / 2 * W)"
    using agree code spec midH by blast
  have c: "160 < W / 2 \<and> W / 2 < 240 \<and> 260 < H / 2 \<and> H / 2 < 340"
    using pt [of 0 fw] fw midW by (simp add: W_def)
  have l: "\<not> ((1 - band) / 2 * W < 160)"
    using pt [of 160 0] c midW by auto
  have r: "\<not> (240 < (1 + band) / 2 * W)"
  proof
    assume a: "240 < (1 + band) / 2 * W"
    have "(1 - band) / 2 * W < 240" using midW c by linarith
    then show False using pt [of 240 0] a by auto
  qed
  have "band * W \<le> 80" using l r by (simp add: field_simps)
  moreover have "320 < W" using c by simp
  moreover have "W / 4 \<le> band * W" using lo Wpos by simp
  ultimately show False by linarith
qed

section \<open>Which frames reach the Matcher\<close>

lemma matcher_calls_append [simp]: "matcher_calls (xs @ ys) = matcher_calls xs @ matcher_calls ys"
  by (simp add: matcher_calls_def)

lemma matcher_calls_simps [simp]:
  "matcher_calls [] = []"
  "matcher_calls (e # es) = (if is_matcher_call e then e # matcher_calls es else matcher_calls es)"
  by (simp_all add: matcher_calls_def)

lemma mc_registerFace:
  "matcher_calls (snd (registerFace img net s)) = [FetchRegister (bearer s) (userId s) img]"
  by (simp add: registerFace_cases split: fetch_outcome.splits sum.splits)

lemma mc_verifyFace:
  "matcher_calls (snd (snd (verifyFace img net ok s))) = [FetchVerify (userId s) img]"
  by (auto simp: verifyFace_def verifyFace_try_def login_def Let_def
           split: fetch_outcome.splits sum.splits)

lemma mc_takePicture:
  "matcher_calls (snd (takePicture cam net anim au s)) =
     (case cam of
        Photo b64 \<Rightarrow> if cameraRef s \<and> isFaceCentered s
                     then [FetchRegister (bearer au) (userId au) (dataUrl b64)] else []
      | CaptureRejected e \<Rightarrow> [])"
proof (cases cam)
  case (CaptureRejected e)
  then show ?thesis by (simp add: takePicture_def takePicture_catch_def Let_def)
next
  case (Photo b64)
  obtain r effs where rf: "registerFace (dataUrl b64) net au = (r, effs)"
    by (cases "registerFace (dataUrl b64) net au")
  have m: "matcher_calls effs = [FetchRegister (bearer au) (userId au) (dataUrl b64)]"
    using mc_registerFace [of "dataUrl b64" net au] rf by simp
  show ?thesis using Photo rf m
    by (cases r) (simp_all add: takePicture_def takePicture_catch_def Let_def)
qed

lemma takePicture_ignores_score:
  "takePicture cam net anim au (s\<lparr>qualityScore := q\<rparr>) =
     (case takePicture cam net anim au s of (s', effs) \<Rightarrow> (s'\<lparr>qualityScore := q\<rparr>, effs))"
proof (cases cam)
  case (CaptureRejected e)
  then show ?thesis by (simp add: takePicture_def takePicture_catch_def Let_def)
next
  case (Photo b64)
  obtain r effs where rf: "registerFace (dataUrl b64) net au = (r, effs)"
    by (cases "registerFace (dataUrl b64) net au")
  show ?thesis using Photo rf
    by (cases r) (simp_all add: takePicture_def takePicture_catch_def Let_def)
qed

text \<open>
  Claim C1, as the sources have it. \<open>takePicture\<close> submits a frame to the Matcher exactly
  when the camera is attached, the face is reported centred and the capture succeeds;
  the stored quality score is not consulted (changing it changes nothing but the score
  carried along). The pass flag of \<open>checkFaceQuality\<close> holds exactly when the score is
  strictly greater than 0.7, and no caller reads it.
\<close>

theorem takePicture_gate_is_centering:
  "(matcher_calls (snd (takePicture cam net anim au s)) \<noteq> []
      \<longleftrightarrow> cameraRef s \<and> isFaceCentered s \<and> captured cam)
   \<and> takePicture cam net anim au (s\<lparr>qualityScore := q\<rparr>) =
       (case takePicture cam net anim au s of (s', effs) \<Rightarrow> (s'\<lparr>qualityScore := q\<rparr>, effs))
   \<and> (fst (checkFaceQuality r face s) \<longleftrightarrow> 0.7 < qualityScore (snd (checkFaceQuality r face s)))"
  using takePicture_ignores_score [of cam net anim au q s]
  by (simp add: mc_takePicture checkFaceQuality_def Let_def split: capture_outcome.splits)

theorem takePicture_gate_is_centering_witness:
  "matcher_calls (snd (takePicture (Photo ''p'') FetchRejected False initialState
       (initialRegState\<lparr>cameraRef := True, isFaceCentered := True\<rparr>))) \<noteq> []
   \<and> matcher_calls (snd (takePicture (Photo ''p'') FetchRejected False initialState
       (initialRegState\<lparr>cameraRef := True, qualityScore := 1\<rparr>))) = []
   \<and> \<not> fst (checkFaceQuality initialRegState
       \<lparr>origin_x = 0, origin_y = 0, size_width = 150, size_height = 150\<rparr> initialRegState)"
  using takePicture_gate_is_centering [of "Photo ''p''" FetchRejected False initialState
      "initialRegState\<lparr>cameraRef := True, isFaceCentered := True\<rparr>" 1 initialRegState
      "\<lparr>origin_x = 0, origin_y = 0, size_width = 150, size_height = 150\<rparr>"]
    takePicture_gate_is_centering [of "Photo ''p''" FetchRejected False initialState
      "initialRegState\<lparr>cameraRef := True, qualityScore := 1\<rparr>" 1 initialRegState
      "\<lparr>origin_x = 0, origin_y = 0, size_width = 150, size_height = 150\<rparr>"]
  by (simp add: initialRegState_def checkFaceQuality_def Let_def)

text \<open>
  Claim C1 as the specification states it fails in both directions. A centred face of
  20 by 20 pixels, detected twice, has the score 0.6, below 0.7, and \<open>takePicture\<close>
  submits its frame to the Matcher. A face of 150 by 150 pixels away from the centre
  has the score 0.7, and \<open>takePicture\<close> submits nothing.
\<close>

theorem low_score_frame_is_submitted:
  "qualityScore (regScreen (run [EvRegCamera True,
       EvFacesDetected [\<lparr>origin_x = 190, origin_y = 290, size_width = 20, size_height = 20\<rparr>],
       EvFacesDetected [\<lparr>origin_x = 190, origin_y = 290, size_width = 20, size_height = 20\<rparr>]]
       app0)) = 0.6
   \<and> submissions (run [EvRegCamera True,
       EvFacesDetected [\<lparr>origin_x = 190, origin_y = 290, size_width = 20, size_height = 20\<rparr>],
       EvFacesDetected [\<lparr>origin_x = 190, origin_y = 290, size_width = 20, size_height = 20\<rparr>],
       EvTakePicture (Photo ''p'') (JsonBody (JObj [(''success'', JBool True)])) False]
       app0) = [FetchRegister None None (dataUrl ''p'')]
   \<and> qualityScore (regScreen (run [EvRegCamera True,
       EvFacesDetected [\<lparr>origin_x = 0, origin_y = 0, size_width = 150, size_height = 150\<rparr>],
       EvFacesDetected [\<lparr>origin_x = 0, origin_y = 0, size_width = 150, size_height = 150\<rparr>]]
       app0)) = 0.7
   \<and> submissions (run [EvRegCamera True,
       EvFacesDetected [\<lparr>origin_x = 0, origin_y = 0, size_width = 150, size_height = 150\<rparr>],
       EvFacesDetected [\<lparr>origin_x = 0, origin_y = 0, size_width = 150, size_height = 150\<rparr>],
       EvTakePicture (Photo ''p'') (JsonBody (JObj [(''success'', JBool True)])) False]
       app0) = []"
  by (simp add: app0_def initialRegState_def initialState_def handleFaceDetected_def
        checkFaceQuality_def takePicture_def registerFace_cases bearer_def submissions_def
        Let_def)

section \<open>No retry budget\<close>

text \<open>One event adds at most one submission and removes none.\<close>

lemma step_submissions:
  "\<exists>ext. submissions (step e app) = submissions app @ ext \<and> length ext \<le> 1"
proof (cases e)
  case (EvLoadAuthState st v)
  then show ?thesis
    by (auto simp: submissions_def case_prod_beta loadAuthState_def Let_def split: option.splits)
next
  case (EvLogin tk u ok)
  then show ?thesis by (simp add: submissions_def case_prod_beta login_def Let_def)
next
  case (EvLogout ok)
  then show ?thesis by (simp add: submissions_def case_prod_beta logout_def Let_def)
next
  case (EvRegisterFace img net)
  then show ?thesis by (simp add: submissions_def case_prod_beta mc_registerFace)
next
  case (EvVerifyFace img net ok)
  then show ?thesis by (simp add: submissions_def case_prod_beta mc_verifyFace)
next
  case (EvTakePicture cam net anim)
  then show ?thesis
    by (simp add: submissions_def case_prod_beta mc_takePicture split: capture_outcome.splits)
next
  case (EvLoadPrivacySettings got)
  then show ?thesis
    by (simp add: submissions_def case_prod_beta loadPrivacySettings_def split: option.splits)
next
  case (EvUpdateConsent c v ok)
  then show ?thesis
    by (simp add: submissions_def case_prod_beta updateConsent_def Let_def split: option.splits)
qed (simp_all add: submissions_def)

lemma run_submissions:
  "\<exists>ext. submissions (run es app) = submissions app @ ext \<and> length ext \<le> length es"
proof (induction es arbitrary: app)
  case Nil
  then show ?case by simp
next
  case (Cons e es)
  obtain x where x: "submissions (step e app) = submissions app @ x" "length x \<le> 1"
    using step_submissions [of e app] by blast
  obtain y where y: "submissions (run es (step e app)) = submissions (step e app) @ y"
      "length y \<le> length es"
    using Cons.IH [of "step e app"] by blast
  have "submissions (run (e # es) app) = submissions app @ (x @ y)" using x y by simp
  moreover have "length (x @ y) \<le> length (e # es)" using x y by simp
  ultimately show ?case by blast
qed

lemma run_replicate_verifyFace:
  "length (submissions (run (replicate n (EvVerifyFace img net ok)) app))
     = length (submissions app) + n"
proof (induction n arbitrary: app)
  case 0
  then show ?case by simp
next
  case (Suc n)
  have "length (submissions (step (EvVerifyFace img net ok) app)) = length (submissions app) + 1"
    by (simp add: submissions_def case_prod_beta mc_verifyFace)
  then show ?case using Suc.IH [of "step (EvVerifyFace img net ok) app"] by simp
qed

text \<open>
  Claim C2, as the sources have it. Over any run the sequence of submissions to the
  Matcher only grows: it is extended at its end, by at most one submission per event.
  No operation bounds it: \<open>n\<close> calls of \<open>verifyFace\<close> add exactly \<open>n\<close> submissions, for
  every \<open>n\<close> and whatever the Matcher answers; \<open>maxRetries\<close> is read by no operation.
\<close>

theorem submissions_grow_without_bound:
  "(\<exists>ext. submissions (run es app) = submissions app @ ext \<and> length ext \<le> length es)
   \<and> length (submissions (run (replicate n (EvVerifyFace img net ok)) app))
       = length (submissions app) + n"
  using run_submissions [of es app] run_replicate_verifyFace [of n img net ok app] by simp

text \<open>
  Claim C2 as the specification states it fails: with \<open>maxRetries\<close> 3, four calls of
  \<open>verifyFace\<close> in a row that the Matcher answers with a no-match are four submissions,
  and so are four presses of the register button on a centred face that the Matcher
  rejects; the fourth one reaches the Matcher as the first did.
\<close>

theorem fourth_attempt_reaches_matcher:
  "maxRetries FACE_VERIFICATION = 3
   \<and> submissions (run
        [EvVerifyFace ''img'' (JsonBody (JObj [(''success'', JBool False)])) True,
         EvVerifyFace ''img'' (JsonBody (JObj [(''success'', JBool False)])) True,
         EvVerifyFace ''img'' (JsonBody (JObj [(''success'', JBool False)])) True,
         EvVerifyFace ''img'' (JsonBody (JObj [(''success'', JBool False)])) True] app0)
      = [FetchVerify None ''img'', FetchVerify None ''img'', FetchVerify None ''img'',
         FetchVerify None ''img'']
   \<and> submissions (run
        [EvRegCamera True,
         EvFacesDetected [\<lparr>origin_x = 125, origin_y = 225, size_width = 150, size_height = 150\<rparr>],
         EvTakePicture (Photo ''p'') (JsonBody (JObj [(''success'', JBool False)])) False,
         EvTakePicture (Photo ''p'') (JsonBody (JObj [(''success'', JBool False)])) False,
         EvTakePicture (Photo ''p'') (JsonBody (JObj [(''success'', JBool False)])) False,
         EvTakePicture (Photo ''p'') (JsonBody (JObj [(''success'', JBool False)])) False] app0)
      = [FetchRegister None None (dataUrl ''p''), FetchRegister None None (dataUrl ''p''),
         FetchRegister None None (dataUrl ''p''), FetchRegister None None (dataUrl ''p'')]"
  by (simp add: FACE_VERIFICATION_def app0_def initialRegState_def initialState_def
        handleFaceDetected_def checkFaceQuality_def takePicture_def registerFace_cases
        bearer_def verifyFace_def verifyFace_try_def submissions_def Let_def)

section \<open>A transport error and a no-match\<close>

text \<open>
  Claim C7, as the sources have it. When the fetch of \<open>verifyFace\<close> rejects, the
  authentication state is unchanged, nothing is recorded about the failed call, and the
  caller receives \<open>false\<close>, the value a no-match gives; the error itself goes to the
  console only. \<open>handleVerification\<close> then shows the same alert as for a no-match and
  returns the screen to its ready state (\<open>isProcessing\<close> false).
\<close>

theorem transport_error_like_no_match:
  "verifyFace img FetchRejected ok s =
     (Inr False, s, [FetchVerify (userId s) img, ConsoleError ''Error verifying face:''])
   \<and> verifyFace img (JsonBody (JObj [(''success'', JBool False)])) ok s =
     (Inr False, s, [FetchVerify (userId s) img])
   \<and> handleVerification (Photo b64) FetchRejected ok au a =
     (au, a\<lparr>isProcessing := False\<rparr>,
      if cameraRef_a a
      then [TakePictureAsync, FetchVerify (userId au) (dataUrl b64),
            ConsoleError ''Error verifying face:'',
            AlertShown ''Error'' ERROR_FACE_VERIFICATION]
      else [AlertShown ''Error'' ERROR_FACE_VERIFICATION])
   \<and> handleVerification (Photo b64) (JsonBody (JObj [(''success'', JBool False)])) ok au a =
     (au, a\<lparr>isProcessing := False\<rparr>,
      if cameraRef_a a
      then [TakePictureAsync, FetchVerify (userId au) (dataUrl b64),
            AlertShown ''Error'' ERROR_FACE_VERIFICATION]
      else [AlertShown ''Error'' ERROR_FACE_VERIFICATION])"
  by (simp add: verifyFace_def verifyFace_try_def handleVerification_def captureImage_def Let_def)

text \<open>
  Claim C7 as the specification states it fails on its last part: what \<open>verifyFace\<close>
  returns to its caller after a transport error, and the state it leaves, are those of
  a no-match.
\<close>

theorem transport_error_indistinguishable:
  "fst (verifyFace ''img'' FetchRejected True initialState)
     = fst (verifyFace ''img'' (JsonBody (JObj [(''success'', JBool False)])) True initialState)
   \<and> fst (snd (verifyFace ''img'' FetchRejected True initialState))
     = fst (snd (verifyFace ''img'' (JsonBody (JObj [(''success'', JBool False)])) True initialState))"
  by (simp add: verifyFace_def verifyFace_try_def initialState_def Let_def)

section \<open>Consent and capture\<close>

lemma updateConsent_settings:
  "map_option consents (settings (fst (updateConsent c v ok p))) =
     (if ok then map_option (\<lambda>st. (consents st)(c \<mapsto> v)) (settings p)
      else map_option consents (settings p))"
  by (simp add: updateConsent_def Let_def split: option.splits)

text \<open>
  Claim C8, as the sources have it. The capture path does not consult consent: face
  detection (with its scoring) and \<open>takePicture\<close> do the same whatever the privacy
  state is, and leave it untouched. \<open>updateConsent\<close> changes neither the capture screen
  nor the authentication state and submits nothing; it sets the flag of its category
  when the settings are loaded and the PUT succeeds, and otherwise keeps the flags.
\<close>

theorem capture_ignores_consent:
  "step (EvFacesDetected faces) (app\<lparr>privacy := p\<rparr>)
     = (step (EvFacesDetected faces) app)\<lparr>privacy := p\<rparr>
   \<and> step (EvTakePicture cam net anim) (app\<lparr>privacy := p\<rparr>)
     = (step (EvTakePicture cam net anim) app)\<lparr>privacy := p\<rparr>
   \<and> regScreen (step (EvUpdateConsent c v ok) app) = regScreen app
   \<and> auth (step (EvUpdateConsent c v ok) app) = auth app
   \<and> submissions (step (EvUpdateConsent c v ok) app) = submissions app
   \<and> map_option consents (settings (privacy (step (EvUpdateConsent c v ok) app))) =
       (if ok then map_option (\<lambda>st. (consents st)(c \<mapsto> v)) (settings (privacy app))
        else map_option consents (settings (privacy app)))"
  using updateConsent_settings [of c v ok "privacy app"]
  by (simp add: case_prod_beta submissions_def matcher_calls_def updateConsent_def Let_def
        split: option.splits)

text \<open>
  Claim C8 as the specification states it fails: after the user has switched the
  \<open>facial_data\<close> consent off, a detected face is still scored (the score 1 is stored) and
  \<open>takePicture\<close> still submits its frame to the Matcher.
\<close>

theorem capture_after_consent_denied:
  "map_option (\<lambda>st. consents st ''facial_data'')
     (settings (privacy (run
        [EvLoadPrivacySettings (Some \<lparr>consents = [''facial_data'' \<mapsto> True],
            retention_preferences = Map.empty, data_usage_preferences = Map.empty\<rparr>),
         EvUpdateConsent ''facial_data'' False True,
         EvRegCamera True,
         EvFacesDetected [\<lparr>origin_x = 125, origin_y = 225, size_width = 150, size_height = 150\<rparr>],
         EvFacesDetected [\<lparr>origin_x = 125, origin_y = 225, size_width = 150, size_height = 150\<rparr>],
         EvTakePicture (Photo ''p'') (JsonBody (JObj [(''success'', JBool True)])) False] app0)))
     = Some (Some False)
   \<and> qualityScore (regScreen (run
        [EvLoadPrivacySettings (Some \<lparr>consents = [''facial_data'' \<mapsto> True],
            retention_preferences = Map.empty, data_usage_preferences = Map.empty\<rparr>),
         EvUpdateConsent ''facial_data'' False True,
         EvRegCamera True,
         EvFacesDetected [\<lparr>origin_x = 125, origin_y = 225, size_width = 150, size_height = 150\<rparr>],
         EvFacesDetected [\<lparr>origin_x = 125, origin_y = 225, size_width = 150, size_height = 150\<rparr>],
         EvTakePicture (Photo ''p'') (JsonBody (JObj [(''success'', JBool True)])) False] app0)) = 1
   \<and> submissions (run
        [EvLoadPrivacySettings (Some \<lparr>consents = [''facial_data'' \<mapsto> True],
            retention_preferences = Map.empty, data_usage_preferences = Map.empty\<rparr>),
         EvUpdateConsent ''facial_data'' False True,
         EvRegCamera True,
         EvFacesDetected [\<lparr>origin_x = 125, origin_y = 225, size_width = 150, size_height = 150\<rparr>],
         EvFacesDetected [\<lparr>origin_x = 125, origin_y = 225, size_width = 150, size_height = 150\<rparr>],
         EvTakePicture (Photo ''p'') (JsonBody (JObj [(''success'', JBool True)])) False] app0)
     = [FetchRegister None None (dataUrl ''p'')]"
  by (simp add: app0_def initialRegState_def initialState_def initialPrivacyState_def
        loadPrivacySettings_def updateConsent_def handleFaceDetected_def checkFaceQuality_def
        takePicture_def registerFace_def registerFace_try_def bearer_def submissions_def
        matcher_calls_def Let_def)

end
